theory Spec2Isabelle
  imports Main "HOL-Library.Word"
begin

section \<open>The MineralChainFHE contract\<close>

text \<open>
  A shallow embedding of the Solidity contract \<open>MineralChainFHE\<close>. A \<open>uint256\<close> is a
  256-bit word; the arithmetic of Solidity 0.8 is checked, so an addition or a
  multiplication that leaves the range reverts with a panic. A Solidity mapping is a total
  function whose unset keys read as the zero value of the value type. A public function is
  a function from the contract's storage to either an error (the transaction reverts and
  the storage stays as it was) or the new storage.
\<close>

type_synonym uint256 = "256 word"
type_synonym uint32 = "32 word"

subsection \<open>The FHE library and the decryption oracle\<close>

text \<open>
  Modelled from the spec: the library \<open>@fhevm/solidity/lib/FHE.sol\<close> is imported by the
  contract and is not part of the sources. The spec (section 6) describes a ciphertext
  handle as an opaque reference to an encrypted 32-bit value with \<open>encrypt_zero\<close>,
  \<open>is_initialized\<close> and \<open>homomorphic_add\<close>, all pure. A handle is identified here with the
  plaintext it encrypts; \<open>Uninit\<close> is the zero handle of an unset storage slot.
\<close>

datatype euint32 = Uninit | Enc uint32

fun isInitialized :: "euint32 \<Rightarrow> bool" where
  "isInitialized Uninit = False"
| "isInitialized (Enc v) = True"

definition asEuint32 :: "uint32 \<Rightarrow> euint32" where
  "asEuint32 v = Enc v"

text \<open>
  The library's addition encrypts zero for an operand that is not initialised. On the
  chain the addition is also subject to the access-control list; that check is left out
  of \<open>FHE_add\<close>, so the runs on which a callback is accepted here include those on which
  the list admits it, and what is proved of every run holds of those.
\<close>

fun plain :: "euint32 \<Rightarrow> uint32" where
  "plain Uninit = 0"
| "plain (Enc v) = v"

definition FHE_add :: "euint32 \<Rightarrow> euint32 \<Rightarrow> euint32" where
  "FHE_add a b = Enc (plain a + plain b)"

text \<open>
  What the contract takes from its environment: the hash \<open>keccak256(abi.encodePacked(s))\<close>
  of a string, the oracle's signature check \<open>FHE.checkSignatures\<close> (which reverts when it
  fails), and the two uses of \<open>abi.decode\<close> (which revert on a payload of the wrong
  shape). The payload and the proof are byte strings whose structure the contract never
  inspects, so their types are left open.
\<close>

record ('b, 'p) fhe_env =
  keccak256 :: "string \<Rightarrow> uint256"
  checkSignatures :: "uint256 \<Rightarrow> 'b \<Rightarrow> 'p \<Rightarrow> bool"
  decodeSupply :: "'b \<Rightarrow> (string \<times> uint256 \<times> string) option"
  decodeStats :: "'b \<Rightarrow> uint32 option"

subsection \<open>Storage\<close>

record EncryptedSupplyData =
  data_id :: uint256
  encryptedMineralType :: euint32
  encryptedQuantity :: euint32
  encryptedOrigin :: euint32
  timestamp :: uint256

record DecryptedSupplyData =
  mineralType :: string
  quantity :: uint256
  origin :: string
  isAnalyzed :: bool

datatype event =
  DataSubmitted uint256 uint256
| AnalysisRequested uint256
| DataAnalyzed uint256

text \<open>
  The storage variables of the contract, and the log of the events emitted so far (a
  revert discards the events of the call with its writes).
\<close>

record contract =
  dataCount :: uint256
  encryptedSupplyData :: "uint256 \<Rightarrow> EncryptedSupplyData"
  decryptedSupplyData :: "uint256 \<Rightarrow> DecryptedSupplyData"
  encryptedMineralStats :: "string \<Rightarrow> euint32"
  mineralTypeList :: "string list"
  requestToDataId :: "uint256 \<Rightarrow> uint256"
  events :: "event list"

definition zeroEncrypted :: EncryptedSupplyData where
  "zeroEncrypted = \<lparr>data_id = 0, encryptedMineralType = Uninit, encryptedQuantity = Uninit,
     encryptedOrigin = Uninit, timestamp = 0\<rparr>"

definition zeroDecrypted :: DecryptedSupplyData where
  "zeroDecrypted = \<lparr>mineralType = [], quantity = 0, origin = [], isAnalyzed = False\<rparr>"

definition initial :: contract where
  "initial = \<lparr>dataCount = 0, encryptedSupplyData = (\<lambda>_. zeroEncrypted),
     decryptedSupplyData = (\<lambda>_. zeroDecrypted), encryptedMineralStats = (\<lambda>_. Uninit),
     mineralTypeList = [], requestToDataId = (\<lambda>_. 0), events = []\<rparr>"

datatype error =
  AlreadyAnalyzed
| InvalidRequest
| MineralTypeNotFound
| InvalidProof
| MalformedPayload
| Panic
| SenderNotAllowed

text \<open>
  \<open>AlreadyAnalyzed\<close> is \<open>require(..., "Already analyzed")\<close>, \<open>InvalidRequest\<close> is
  \<open>require(..., "Invalid request")\<close> (the spec's \<open>UnknownRequest\<close>), \<open>MineralTypeNotFound\<close>
  is the revert \<open>"Mineral type not found"\<close> (the spec's \<open>NotFound\<close>), \<open>InvalidProof\<close> is a
  revert of \<open>FHE.checkSignatures\<close>, \<open>MalformedPayload\<close> a revert of \<open>abi.decode\<close>,
  \<open>Panic\<close> an arithmetic overflow, and \<open>SenderNotAllowed\<close> the revert of
  \<open>FHE.requestDecryption\<close> for a handle the contract may not have decrypted.
\<close>

subsection \<open>Requesting a decryption\<close>

text \<open>
  \<open>FHE.requestDecryption\<close> is library code outside the sources. It reverts unless the
  access-control list lets the contract have every handle of the request decrypted, and
  the zero handle of an unset slot is never allowed. The list is the state of another
  contract (this one never calls \<open>FHE.allowThis\<close>), so its verdict on handles that are
  initialised is an input of the call: \<open>None\<close> when the list refuses, \<open>Some reqId\<close> when
  it grants and the oracle answers with the token \<open>reqId\<close>.
\<close>

definition FHE_requestDecryption :: "euint32 list \<Rightarrow> uint256 option \<Rightarrow> error + uint256" where
  "FHE_requestDecryption ciphertexts granted =
     (if \<forall>h \<in> set ciphertexts. isInitialized h then
        (case granted of None \<Rightarrow> Inl SenderNotAllowed | Some reqId \<Rightarrow> Inr reqId)
      else Inl SenderNotAllowed)"

subsection \<open>Checked arithmetic\<close>

definition checked_add :: "uint256 \<Rightarrow> uint256 \<Rightarrow> error + uint256" where
  "checked_add a b = (if unat a + unat b < 2 ^ 256 then Inr (a + b) else Inl Panic)"


subsection \<open>The functions of the contract\<close>

definition submitEncryptedSupplyData ::
  "contract \<Rightarrow> euint32 \<Rightarrow> euint32 \<Rightarrow> euint32 \<Rightarrow> uint256 \<Rightarrow> error + contract" where
  "submitEncryptedSupplyData s emt eq eo now =
     (case checked_add (dataCount s) 1 of
        Inl e \<Rightarrow> Inl e
      | Inr newId \<Rightarrow>
          Inr (s\<lparr>dataCount := newId,
                 encryptedSupplyData := (encryptedSupplyData s)(newId :=
                   \<lparr>data_id = newId, encryptedMineralType = emt, encryptedQuantity = eq,
                    encryptedOrigin = eo, timestamp = now\<rparr>),
                 decryptedSupplyData := (decryptedSupplyData s)(newId :=
                   \<lparr>mineralType = [], quantity = 0, origin = [], isAnalyzed = False\<rparr>),
                 events := events s @ [DataSubmitted newId now]\<rparr>))"

text \<open>
  \<open>granted\<close> is the answer of the access-control list and the oracle to this call. The
  modifier \<open>onlyAuthorized\<close> has an empty body.
\<close>

definition requestSupplyAnalysis ::
  "contract \<Rightarrow> uint256 \<Rightarrow> uint256 option \<Rightarrow> error + contract" where
  "requestSupplyAnalysis s dataId granted =
     (let data = encryptedSupplyData s dataId in
      if isAnalyzed (decryptedSupplyData s dataId) then Inl AlreadyAnalyzed
      else (case FHE_requestDecryption
                   [encryptedMineralType data, encryptedQuantity data, encryptedOrigin data]
                   granted of
              Inl e \<Rightarrow> Inl e
            | Inr reqId \<Rightarrow>
                Inr (s\<lparr>requestToDataId := (requestToDataId s)(reqId := dataId),
                       events := events s @ [AnalysisRequested dataId]\<rparr>)))"

definition analyzeSupplyChain ::
  "('b, 'p) fhe_env \<Rightarrow> contract \<Rightarrow> uint256 \<Rightarrow> 'b \<Rightarrow> 'p \<Rightarrow> error + contract" where
  "analyzeSupplyChain E s requestId cleartexts prf =
     (let dataId = requestToDataId s requestId in
      if dataId = 0 then Inl InvalidRequest
      else if isAnalyzed (decryptedSupplyData s dataId) then Inl AlreadyAnalyzed
      else if \<not> checkSignatures E requestId cleartexts prf then Inl InvalidProof
      else (case decodeSupply E cleartexts of
              None \<Rightarrow> Inl MalformedPayload
            | Some (mt, q, orig) \<Rightarrow>
                (let dData = \<lparr>mineralType = mt, quantity = q, origin = orig, isAnalyzed = True\<rparr>;
                     fresh = \<not> isInitialized (encryptedMineralStats s mt);
                     stats1 = (if fresh then (encryptedMineralStats s)(mt := asEuint32 0)
                               else encryptedMineralStats s);
                     list1 = (if fresh then mineralTypeList s @ [mt] else mineralTypeList s);
                     stats2 = stats1(mt := FHE_add (stats1 mt) (asEuint32 1))
                 in Inr (s\<lparr>decryptedSupplyData := (decryptedSupplyData s)(dataId := dData),
                            encryptedMineralStats := stats2,
                            mineralTypeList := list1,
                            events := events s @ [DataAnalyzed dataId]\<rparr>))))"

definition getDecryptedSupplyData :: "contract \<Rightarrow> uint256 \<Rightarrow> string \<times> uint256 \<times> string \<times> bool" where
  "getDecryptedSupplyData s dataId =
     (let d = decryptedSupplyData s dataId in (mineralType d, quantity d, origin d, isAnalyzed d))"

definition getEncryptedMineralStats :: "contract \<Rightarrow> string \<Rightarrow> euint32" where
  "getEncryptedMineralStats s mt = encryptedMineralStats s mt"

definition requestMineralStatsDecryption ::
  "('b, 'p) fhe_env \<Rightarrow> contract \<Rightarrow> string \<Rightarrow> uint256 option \<Rightarrow> error + contract" where
  "requestMineralStatsDecryption E s mt granted =
     (let stats = encryptedMineralStats s mt in
      if \<not> isInitialized stats then Inl MineralTypeNotFound
      else (case FHE_requestDecryption [stats] granted of
              Inl e \<Rightarrow> Inl e
            | Inr reqId \<Rightarrow>
                Inr (s\<lparr>requestToDataId := (requestToDataId s)(reqId := keccak256 E mt)\<rparr>)))"

text \<open>The loop of \<open>getMineralTypeFromHash\<close> over the catalog, first match first.\<close>

fun findMineralType :: "('b, 'p) fhe_env \<Rightarrow> string list \<Rightarrow> uint256 \<Rightarrow> error + string" where
  "findMineralType E [] h = Inl MineralTypeNotFound"
| "findMineralType E (m # ms) h = (if keccak256 E m = h then Inr m else findMineralType E ms h)"

definition getMineralTypeFromHash :: "('b, 'p) fhe_env \<Rightarrow> contract \<Rightarrow> uint256 \<Rightarrow> error + string" where
  "getMineralTypeFromHash E s h = findMineralType E (mineralTypeList s) h"

definition decryptMineralStats ::
  "('b, 'p) fhe_env \<Rightarrow> contract \<Rightarrow> uint256 \<Rightarrow> 'b \<Rightarrow> 'p \<Rightarrow> error + contract" where
  "decryptMineralStats E s requestId cleartexts prf =
     (let mineralHash = requestToDataId s requestId in
      case getMineralTypeFromHash E s mineralHash of
        Inl e \<Rightarrow> Inl e
      | Inr mt \<Rightarrow>
          if \<not> checkSignatures E requestId cleartexts prf then Inl InvalidProof
          else (case decodeStats E cleartexts of
                  None \<Rightarrow> Inl MalformedPayload
                | Some stats \<Rightarrow> Inr s))"





subsection \<open>Transactions and runs\<close>

text \<open>
  The state-changing entry points, each with the values the environment supplies to the
  call: the block timestamp for a submission, the answer of \<open>FHE.requestDecryption\<close> for
  a request.
\<close>

datatype ('b, 'p) call =
  CallSubmit euint32 euint32 euint32 uint256
| CallRequestAnalysis uint256 "uint256 option"
| CallAnalyze uint256 'b 'p
| CallRequestStats string "uint256 option"
| CallDecryptStats uint256 'b 'p

fun exec :: "('b, 'p) fhe_env \<Rightarrow> contract \<Rightarrow> ('b, 'p) call \<Rightarrow> error + contract" where
  "exec E s (CallSubmit emt eq eo now) = submitEncryptedSupplyData s emt eq eo now"
| "exec E s (CallRequestAnalysis dataId granted) = requestSupplyAnalysis s dataId granted"
| "exec E s (CallAnalyze requestId cleartexts prf) = analyzeSupplyChain E s requestId cleartexts prf"
| "exec E s (CallRequestStats mt granted) = requestMineralStatsDecryption E s mt granted"
| "exec E s (CallDecryptStats requestId cleartexts prf) =
     decryptMineralStats E s requestId cleartexts prf"

text \<open>A reverted call leaves the storage as it was.\<close>

definition apply_call :: "('b, 'p) fhe_env \<Rightarrow> contract \<Rightarrow> ('b, 'p) call \<Rightarrow> contract" where
  "apply_call E s c = (case exec E s c of Inl e \<Rightarrow> s | Inr s' \<Rightarrow> s')"

definition run :: "('b, 'p) fhe_env \<Rightarrow> contract \<Rightarrow> ('b, 'p) call list \<Rightarrow> contract" where
  "run E s cs = foldl (apply_call E) s cs"

text \<open>A request call that stores its token under the key \<open>t\<close> of the request table.\<close>

fun reissues :: "uint256 \<Rightarrow> ('b, 'p) call \<Rightarrow> bool" where
  "reissues t (CallRequestAnalysis dataId granted) = (granted = Some t)"
| "reissues t (CallRequestStats mt granted) = (granted = Some t)"
| "reissues t _ = False"

subsection \<open>Invariants of the reachable storage\<close>

text \<open>An entry of the revealed ledger that is not resolved is the zero entry.\<close>

definition placeholder_inv :: "contract \<Rightarrow> bool" where
  "placeholder_inv s =
     (\<forall>i. \<not> isAnalyzed (decryptedSupplyData s i) \<longrightarrow> decryptedSupplyData s i = zeroDecrypted)"

subsection \<open>A concrete environment for worked examples\<close>

text \<open>
  Payloads that say which shape they have, a proof that is just the verdict of the check,
  and a positional hash that tells short strings apart.
\<close>

datatype payload = SupplyPayload string uint256 string | StatsPayload uint32 | Junk

definition demoKeccak :: "string \<Rightarrow> uint256" where
  "demoKeccak str = of_nat (foldl (\<lambda>a c. a * 256 + of_char c) 1 str)"

definition demoEnv :: "(payload, bool) fhe_env" where
  "demoEnv = \<lparr>keccak256 = demoKeccak, checkSignatures = (\<lambda>requestId cleartexts prf. prf),
     decodeSupply = (\<lambda>cleartexts. case cleartexts of
        SupplyPayload mt q orig \<Rightarrow> Some (mt, q, orig) | _ \<Rightarrow> None),
     decodeStats = (\<lambda>cleartexts. case cleartexts of StatsPayload v \<Rightarrow> Some v | _ \<Rightarrow> None)\<rparr>"

definition demoSubmitted :: contract where
  "demoSubmitted = run demoEnv initial [CallSubmit (Enc 1) (Enc 5) (Enc 2) 1000]"

definition demoRequested :: contract where
  "demoRequested = run demoEnv demoSubmitted [CallRequestAnalysis 1 (Some 7)]"

definition demoResolved :: contract where
  "demoResolved = run demoEnv demoRequested [CallAnalyze 7 (SupplyPayload ''Cobalt'' 5 ''A'') True]"

subsection \<open>What a run has resolved\<close>

text \<open>
  The categories named by the successful resolutions of a run, in the order of the calls:
  a call contributes its decoded category when it is an \<open>analyzeSupplyChain\<close> that does not
  revert.
\<close>

fun resolvedCategory :: "('b, 'p) fhe_env \<Rightarrow> contract \<Rightarrow> ('b, 'p) call \<Rightarrow> string list" where
  "resolvedCategory E s (CallAnalyze requestId cleartexts prf) =
     (case analyzeSupplyChain E s requestId cleartexts prf of
        Inl e \<Rightarrow> []
      | Inr s' \<Rightarrow> (case decodeSupply E cleartexts of
                     None \<Rightarrow> []
                   | Some (mt, q, orig) \<Rightarrow> [mt]))"
| "resolvedCategory E s _ = []"

fun resolvedCategories ::
  "('b, 'p) fhe_env \<Rightarrow> contract \<Rightarrow> ('b, 'p) call list \<Rightarrow> string list" where
  "resolvedCategories E s [] = []"
| "resolvedCategories E s (c # cs) =
     resolvedCategory E s c @ resolvedCategories E (apply_call E s c) cs"

text \<open>A list without its repetitions, each element at its first position.\<close>

definition firstOccurrences :: "'a list \<Rightarrow> 'a list" where
  "firstOccurrences xs = rev (remdups (rev xs))"

text \<open>
  The catalog lists the resolved categories in the order of their first resolution, and
  the counter of a category encrypts the number of resolutions that named it (there is
  no counter before the first).
\<close>

definition counters_inv :: "contract \<Rightarrow> string list \<Rightarrow> bool" where
  "counters_inv s rs =
     (mineralTypeList s = firstOccurrences rs
      \<and> (\<forall>c. encryptedMineralStats s c =
            (if count_list rs c = 0 then Uninit else Enc (of_nat (count_list rs c)))))"

text \<open>
  The example of the spec: two disclosures, both resolved as "Cobalt".
\<close>

definition cobaltTwice :: "(payload, bool) call list" where
  "cobaltTwice =
     [CallSubmit (Enc 1) (Enc 5) (Enc 2) 1000, CallSubmit (Enc 1) (Enc 9) (Enc 3) 1001,
      CallRequestAnalysis 1 (Some 7), CallRequestAnalysis 2 (Some 8),
      CallAnalyze 7 (SupplyPayload ''Cobalt'' 5 ''A'') True,
      CallAnalyze 8 (SupplyPayload ''Cobalt'' 9 ''B'') True]"

subsection \<open>Sequences of submissions\<close>

text \<open>
  A sequence of \<open>submitEncryptedSupplyData\<close> calls, each given its three ciphertexts and
  the block timestamp; the sequence stops at the first call that reverts.
\<close>

type_synonym submission = "euint32 \<times> euint32 \<times> euint32 \<times> uint256"

fun submitAll :: "contract \<Rightarrow> submission list \<Rightarrow> error + contract" where
  "submitAll s [] = Inr s"
| "submitAll s ((emt, eq, eo, now) # rest) =
     (case submitEncryptedSupplyData s emt eq eo now of
        Inl e \<Rightarrow> Inl e
      | Inr s' \<Rightarrow> submitAll s' rest)"

text \<open>
  What the claim says of the storage after the calls \<open>args\<close>: the counter is their
  number, the \<open>k\<close>-th call (counting from 0) was given the id \<open>k + 1\<close>, announced it in its
  event, and stored its disclosure and an empty unresolved entry under that id.
\<close>

definition submitted :: "contract \<Rightarrow> submission list \<Rightarrow> bool" where
  "submitted s args =
     (dataCount s = of_nat (length args)
      \<and> events s = map (\<lambda>k. DataSubmitted (of_nat (Suc k)) (snd (snd (snd (args ! k)))))
                      [0..<length args]
      \<and> (\<forall>k < length args.
            encryptedSupplyData s (of_nat (Suc k)) =
              \<lparr>data_id = of_nat (Suc k), encryptedMineralType = fst (args ! k),
               encryptedQuantity = fst (snd (args ! k)),
               encryptedOrigin = fst (snd (snd (args ! k))),
               timestamp = snd (snd (snd (args ! k)))\<rparr>
            \<and> decryptedSupplyData s (of_nat (Suc k)) =
              \<lparr>mineralType = [], quantity = 0, origin = [], isAnalyzed = False\<rparr>))"

definition threeSubmissions :: "submission list" where
  "threeSubmissions =
     [(Enc 1, Enc 10, Enc 7, 1000), (Enc 2, Enc 20, Enc 8, 1001), (Enc 1, Enc 30, Enc 7, 1002)]"

subsection \<open>The risk ratio\<close>



definition quantitySum :: "contract \<Rightarrow> (nat \<Rightarrow> bool) \<Rightarrow> nat \<Rightarrow> nat \<Rightarrow> nat" where
  "quantitySum s P a b =
     sum_list (map (\<lambda>k. unat (quantity (decryptedSupplyData s (of_nat k)))) (filter P [a..<b]))"








subsection \<open>What a run has requested\<close>






text \<open>
  The entry of the encrypted ledger under an id that has not been assigned (0, or above
  the counter) is the zero entry, whose handles are zero handles.
\<close>

definition unassigned_inv :: "contract \<Rightarrow> bool" where
  "unassigned_inv s =
     (\<forall>i. i = 0 \<or> dataCount s < i \<longrightarrow> encryptedSupplyData s i = zeroEncrypted)"

text \<open>One submission, its analysis requested with token 7 and resolved as "Cobalt".\<close>

definition cobaltOnce :: "(payload, bool) call list" where
  "cobaltOnce =
     [CallSubmit (Enc 1) (Enc 5) (Enc 2) 1000, CallRequestAnalysis 1 (Some 7),
      CallAnalyze 7 (SupplyPayload ''Cobalt'' 5 ''A'') True]"







section \<open>Properties\<close>

lemmas contract_defs = submitEncryptedSupplyData_def requestSupplyAnalysis_def
  analyzeSupplyChain_def requestMineralStatsDecryption_def decryptMineralStats_def
  getMineralTypeFromHash_def checked_add_def FHE_requestDecryption_def Let_def

lemmas demo_defs = demoResolved_def demoRequested_def demoSubmitted_def run_def apply_call_def
  contract_defs demoEnv_def initial_def zeroDecrypted_def demoKeccak_def asEuint32_def FHE_add_def

lemma demoSubmitted_count: "dataCount demoSubmitted = 1"
  by (simp add: demo_defs)

lemma demoRequested_count: "dataCount demoRequested = 1"
  by (simp add: demo_defs)

lemma demoRequested_token: "requestToDataId demoRequested 7 = 1"
  by (simp add: demo_defs)

lemma demoRequested_analyze:
  "analyzeSupplyChain demoEnv demoRequested 7 (SupplyPayload ''Cobalt'' 5 ''A'') True
     = Inr demoResolved"
  by (simp add: demo_defs)

lemma demoResolved_entry:
  "decryptedSupplyData demoResolved 1
     = \<lparr>mineralType = ''Cobalt'', quantity = 5, origin = ''A'', isAnalyzed = True\<rparr>"
  by (simp add: demo_defs)

lemma demoResolved_token: "requestToDataId demoResolved 7 = 1"
  by (simp add: demo_defs)

lemma demoResolved_catalog:
  "mineralTypeList demoResolved = [''Cobalt''] \<and>
   encryptedMineralStats demoResolved ''Cobalt'' = Enc 1"
  by (simp add: demo_defs)

subsection \<open>Replayed callbacks\<close>

lemma analyze_success_facts:
  assumes "analyzeSupplyChain E s t ct pf = Inr s'"
  shows "analyzeSupplyChain E s' t ct' pf' = Inl AlreadyAnalyzed"
    and "requestToDataId s' t = requestToDataId s t"
    and "requestToDataId s' t \<noteq> 0"
    and "isAnalyzed (decryptedSupplyData s' (requestToDataId s t))"
    and "dataCount s' = dataCount s"
  using assms
  by (auto simp: analyzeSupplyChain_def Let_def split: if_splits option.splits)

lemma submit_dataCount:
  "submitEncryptedSupplyData s emt eq eo now = Inr s' \<Longrightarrow>
     dataCount s < dataCount s' \<and> dataCount s' = dataCount s + 1"
  apply (auto simp: submitEncryptedSupplyData_def checked_add_def split: if_splits)
  apply (simp add: word_less_nat_alt unat_word_ariths)
  done

lemma exec_keeps_resolved:
  assumes "exec E s c = Inr s'" and "\<not> reissues t c"
    and "requestToDataId s t = d" and "d \<le> dataCount s"
    and "isAnalyzed (decryptedSupplyData s d)"
  shows "requestToDataId s' t = d \<and> d \<le> dataCount s' \<and>
    decryptedSupplyData s' d = decryptedSupplyData s d"
proof (cases c)
  case (CallSubmit emt eq eo now)
  then have sub: "submitEncryptedSupplyData s emt eq eo now = Inr s'"
    using assms(1) by simp
  then have lt: "dataCount s < dataCount s'" and eq: "dataCount s' = dataCount s + 1"
    using submit_dataCount by blast+
  then have "d \<noteq> dataCount s + 1"
    using assms(4) by auto
  then show ?thesis
    using sub lt assms(3,4)
    by (auto simp: submitEncryptedSupplyData_def split: sum.splits)
next
  case (CallRequestAnalysis dataId reqId)
  then show ?thesis
    using assms
    by (auto simp: requestSupplyAnalysis_def FHE_requestDecryption_def Let_def
        split: if_splits option.splits)
next
  case (CallAnalyze r ct pf)
  then show ?thesis
    using assms by (auto simp: analyzeSupplyChain_def Let_def split: if_splits option.splits)
next
  case (CallRequestStats mt reqId)
  then show ?thesis
    using assms
    by (auto simp: requestMineralStatsDecryption_def FHE_requestDecryption_def Let_def
        split: if_splits option.splits)
next
  case (CallDecryptStats r ct pf)
  then show ?thesis
    using assms
    by (auto simp: decryptMineralStats_def Let_def split: if_splits sum.splits option.splits)
qed

lemma run_keeps_resolved:
  assumes "\<forall>c \<in> set cs. \<not> reissues t c"
    and "requestToDataId s t = d" and "d \<le> dataCount s"
    and "isAnalyzed (decryptedSupplyData s d)"
  shows "requestToDataId (run E s cs) t = d \<and> d \<le> dataCount (run E s cs)
     \<and> decryptedSupplyData (run E s cs) d = decryptedSupplyData s d"
  using assms
proof (induction cs arbitrary: s)
  case Nil
  then show ?case by (simp add: run_def)
next
  case (Cons c cs)
  let ?s1 = "apply_call E s c"
  have step: "requestToDataId ?s1 t = d \<and> d \<le> dataCount ?s1
      \<and> decryptedSupplyData ?s1 d = decryptedSupplyData s d"
  proof (cases "exec E s c")
    case (Inl e)
    then show ?thesis using Cons.prems by (simp add: apply_call_def)
  next
    case (Inr s1)
    then show ?thesis
      using exec_keeps_resolved [OF Inr, of t d] Cons.prems by (simp add: apply_call_def)
  qed
  have "requestToDataId (run E ?s1 cs) t = d \<and> d \<le> dataCount (run E ?s1 cs)
     \<and> decryptedSupplyData (run E ?s1 cs) d = decryptedSupplyData ?s1 d"
    using Cons.IH [of ?s1] Cons.prems step by simp
  then show ?case using step by (simp add: run_def)
qed

text \<open>
  C1. The claim: after a successful fulfilment for a token that targets disclosure \<open>id\<close>,
  a second fulfilment with the same token fails with \<open>UnknownRequest\<close> because the token is
  no longer registered, and the revealed fields stay as they are.

  The contract never removes an entry of \<open>requestToDataId\<close>. In the example below the
  first callback for token 7 resolves disclosure 1; the replay is rejected by the
  \<open>isAnalyzed\<close> flag with "Already analyzed", not by the token lookup with "Invalid
  request", and token 7 is still registered for disclosure 1.
\<close>

theorem analyze_replay_counterexample:
  "analyzeSupplyChain demoEnv demoRequested 7 (SupplyPayload ''Cobalt'' 5 ''A'') True
     = Inr demoResolved
   \<and> analyzeSupplyChain demoEnv demoResolved 7 (SupplyPayload ''Cobalt'' 5 ''A'') True
     = Inl AlreadyAnalyzed
   \<and> analyzeSupplyChain demoEnv demoResolved 7 (SupplyPayload ''Cobalt'' 5 ''A'') True
     \<noteq> Inl InvalidRequest
   \<and> requestToDataId demoResolved 7 = 1"
proof -
  have "analyzeSupplyChain demoEnv demoResolved 7 (SupplyPayload ''Cobalt'' 5 ''A'') True
      = Inl AlreadyAnalyzed"
    by (simp add: analyzeSupplyChain_def demoResolved_token demoResolved_entry)
  then show ?thesis
    using demoRequested_analyze demoResolved_token by simp
qed

text \<open>
  C1, as the code has it: once \<open>analyzeSupplyChain\<close> has succeeded for token \<open>t\<close>, a second
  call with \<open>t\<close>, whatever its payload and proof, reverts with "Already analyzed" and so
  leaves the storage, the revealed fields included, as it is; the token stays registered
  for the same disclosure. When the disclosure is an assigned one (its id is at most
  \<open>dataCount\<close>) the same holds after any further calls that do not store token \<open>t\<close> again.
\<close>

theorem analyze_replay_rejected:
  assumes "analyzeSupplyChain E s t ct pf = Inr s'"
  shows "analyzeSupplyChain E s' t ct' pf' = Inl AlreadyAnalyzed
     \<and> apply_call E s' (CallAnalyze t ct' pf') = s'
     \<and> requestToDataId s' t = requestToDataId s t
     \<and> requestToDataId s' t \<noteq> 0
     \<and> (requestToDataId s t \<le> dataCount s \<and> (\<forall>c \<in> set cs. \<not> reissues t c) \<longrightarrow>
          analyzeSupplyChain E (run E s' cs) t ct' pf' = Inl AlreadyAnalyzed
          \<and> decryptedSupplyData (run E s' cs) (requestToDataId s t)
              = decryptedSupplyData s' (requestToDataId s t))"
proof -
  note facts = analyze_success_facts [OF assms]
  have now: "analyzeSupplyChain E s' t ct' pf' = Inl AlreadyAnalyzed"
    by (rule facts(1))
  have later: "analyzeSupplyChain E (run E s' cs) t ct' pf' = Inl AlreadyAnalyzed
      \<and> decryptedSupplyData (run E s' cs) (requestToDataId s t)
          = decryptedSupplyData s' (requestToDataId s t)"
    if le: "requestToDataId s t \<le> dataCount s" and cs: "\<forall>c \<in> set cs. \<not> reissues t c"
  proof -
    have keep: "requestToDataId (run E s' cs) t = requestToDataId s t
        \<and> requestToDataId s t \<le> dataCount (run E s' cs)
        \<and> decryptedSupplyData (run E s' cs) (requestToDataId s t)
            = decryptedSupplyData s' (requestToDataId s t)"
      using run_keeps_resolved [OF cs facts(2), of E] le facts(4,5) by simp
    moreover have "requestToDataId s t \<noteq> 0"
      using facts(2,3) by simp
    ultimately show ?thesis
      using facts(4) by (simp add: analyzeSupplyChain_def)
  qed
  show ?thesis
    using now later facts(2,3) by (simp add: apply_call_def)
qed

theorem analyze_replay_rejected_witness:
  "analyzeSupplyChain demoEnv demoRequested 7 (SupplyPayload ''Cobalt'' 5 ''A'') True
     = Inr demoResolved
   \<and> analyzeSupplyChain demoEnv demoResolved 7 Junk True = Inl AlreadyAnalyzed
   \<and> analyzeSupplyChain demoEnv
        (run demoEnv demoResolved [CallSubmit (Enc 3) (Enc 4) (Enc 5) 2000]) 7 Junk True
       = Inl AlreadyAnalyzed"
proof -
  have le: "requestToDataId demoRequested 7 \<le> dataCount demoRequested"
    by (simp add: demoRequested_token demoRequested_count)
  have cs: "\<forall>c \<in> set [CallSubmit (Enc 3) (Enc 4) (Enc 5) 2000 :: (payload, bool) call].
      \<not> reissues 7 c"
    by simp
  show ?thesis
    using analyze_replay_rejected [OF demoRequested_analyze,
        of Junk True "[CallSubmit (Enc 3) (Enc 4) (Enc 5) 2000]"] le cs demoRequested_analyze
    by blast
qed

subsection \<open>Callbacks with a proof that does not verify\<close>

text \<open>
  C2. The claim: for every token and payload, when the authenticity check fails the
  callback aborts with \<open>InvalidProof\<close> and no state is mutated.

  Both callbacks call \<open>FHE.checkSignatures\<close> only after their lookups. For a token that is
  not registered, \<open>analyzeSupplyChain\<close> reverts with "Invalid request" before the proof is
  looked at, so a proof that does not verify is answered with \<open>InvalidRequest\<close>.
\<close>

theorem invalid_proof_counterexample:
  "\<not> checkSignatures demoEnv 5 (SupplyPayload ''Cobalt'' 5 ''A'') False
   \<and> analyzeSupplyChain demoEnv initial 5 (SupplyPayload ''Cobalt'' 5 ''A'') False
     = Inl InvalidRequest
   \<and> analyzeSupplyChain demoEnv initial 5 (SupplyPayload ''Cobalt'' 5 ''A'') False
     \<noteq> Inl InvalidProof"
  by (simp add: analyzeSupplyChain_def initial_def demoEnv_def)

text \<open>
  C2, as the code has it: a callback whose proof does not verify always reverts, so the
  ledger, the counters, the catalog and the request table are as before, whether or not
  the payload decodes. The error is \<open>InvalidProof\<close> exactly when the lookups that precede
  the check pass: for \<open>analyzeSupplyChain\<close> the token is registered (non-zero target) and
  the target is unresolved, otherwise the error is \<open>InvalidRequest\<close> or \<open>AlreadyAnalyzed\<close>;
  for \<open>decryptMineralStats\<close> the stored hash is found in the catalog, otherwise the error
  is \<open>MineralTypeNotFound\<close>.
\<close>

theorem invalid_proof_reverts:
  assumes "\<not> checkSignatures E requestId cleartexts prf"
  shows "apply_call E s (CallAnalyze requestId cleartexts prf) = s
     \<and> apply_call E s (CallDecryptStats requestId cleartexts prf) = s
     \<and> analyzeSupplyChain E s requestId cleartexts prf =
         (if requestToDataId s requestId = 0 then Inl InvalidRequest
          else if isAnalyzed (decryptedSupplyData s (requestToDataId s requestId))
            then Inl AlreadyAnalyzed
          else Inl InvalidProof)
     \<and> decryptMineralStats E s requestId cleartexts prf =
         (case getMineralTypeFromHash E s (requestToDataId s requestId) of
            Inl e \<Rightarrow> Inl e
          | Inr mt \<Rightarrow> Inl InvalidProof)"
  using assms
  by (simp add: apply_call_def analyzeSupplyChain_def decryptMineralStats_def Let_def
      split: sum.splits)

theorem invalid_proof_reverts_witness:
  "\<not> checkSignatures demoEnv 7 (SupplyPayload ''Cobalt'' 5 ''A'') False
   \<and> apply_call demoEnv demoRequested (CallAnalyze 7 (SupplyPayload ''Cobalt'' 5 ''A'') False)
     = demoRequested
   \<and> analyzeSupplyChain demoEnv demoRequested 7 (SupplyPayload ''Cobalt'' 5 ''A'') False
     = Inl InvalidProof"
proof -
  have bad: "\<not> checkSignatures demoEnv 7 (SupplyPayload ''Cobalt'' 5 ''A'') False"
    by (simp add: demoEnv_def)
  have reg: "requestToDataId demoRequested 7 \<noteq> 0"
    by (simp add: demoRequested_token)
  have unres: "\<not> isAnalyzed (decryptedSupplyData demoRequested (requestToDataId demoRequested 7))"
    by (simp add: demo_defs)
  show ?thesis
    using invalid_proof_reverts [OF bad, of demoRequested] bad reg unres by simp
qed

subsection \<open>Reading a revealed entry\<close>

lemma exec_decrypted_cases:
  "exec E s c = Inr s' \<Longrightarrow>
     decryptedSupplyData s' i = decryptedSupplyData s i
     \<or> decryptedSupplyData s' i = zeroDecrypted
     \<or> isAnalyzed (decryptedSupplyData s' i)"
  by (cases c)
    (auto simp: submitEncryptedSupplyData_def requestSupplyAnalysis_def
      analyzeSupplyChain_def requestMineralStatsDecryption_def decryptMineralStats_def
      FHE_requestDecryption_def zeroDecrypted_def Let_def
      split: sum.splits if_splits option.splits)

lemma exec_placeholder_inv:
  "placeholder_inv s \<Longrightarrow> exec E s c = Inr s' \<Longrightarrow> placeholder_inv s'"
  unfolding placeholder_inv_def using exec_decrypted_cases by metis

lemma apply_call_placeholder_inv: "placeholder_inv s \<Longrightarrow> placeholder_inv (apply_call E s c)"
  by (auto simp: apply_call_def split: sum.splits dest: exec_placeholder_inv)

lemma run_placeholder_inv: "placeholder_inv s \<Longrightarrow> placeholder_inv (run E s cs)"
  unfolding run_def by (induction cs arbitrary: s) (auto simp: apply_call_placeholder_inv)

lemma initial_placeholder_inv: "placeholder_inv initial"
  by (simp add: placeholder_inv_def initial_def)

text \<open>
  C9. The claim: \<open>getDecryptedSupplyData\<close> never fails, returns the empty unresolved
  placeholder for an assigned id that is not yet resolved, and returns a distinct "not
  found" indication exactly when the id is outside the range of assigned ids.

  The getter returns the four fields of the mapping entry and nothing else. After one
  submission only id 1 is assigned; the answer for id 2 (and for id 0) is the very tuple
  returned for the assigned, unresolved id 1, so nothing in it indicates "not found".
\<close>

theorem get_revealed_counterexample:
  "dataCount demoSubmitted = 1
   \<and> getDecryptedSupplyData demoSubmitted 1 = ([], 0, [], False)
   \<and> getDecryptedSupplyData demoSubmitted 2 = getDecryptedSupplyData demoSubmitted 1
   \<and> getDecryptedSupplyData demoSubmitted 0 = getDecryptedSupplyData demoSubmitted 1"
  by (simp add: getDecryptedSupplyData_def demo_defs)

text \<open>
  C9, as the code has it: the getter is a total function of the storage (a view without a
  \<open>require\<close>), and in every reachable storage it returns the empty unresolved placeholder
  for every id whose entry is not resolved, whether the id has been assigned or not;
  there is no "not found" answer.
\<close>

theorem get_revealed_placeholder:
  "\<not> isAnalyzed (decryptedSupplyData (run E initial cs) i) \<Longrightarrow>
     getDecryptedSupplyData (run E initial cs) i = ([], 0, [], False)"
proof -
  assume unres: "\<not> isAnalyzed (decryptedSupplyData (run E initial cs) i)"
  have "placeholder_inv (run E initial cs)"
    by (rule run_placeholder_inv [OF initial_placeholder_inv])
  then have "decryptedSupplyData (run E initial cs) i = zeroDecrypted"
    using unres by (simp add: placeholder_inv_def)
  then show ?thesis
    by (simp add: getDecryptedSupplyData_def zeroDecrypted_def)
qed

theorem get_revealed_placeholder_witness:
  "\<not> isAnalyzed (decryptedSupplyData
        (run demoEnv initial [CallSubmit (Enc 1) (Enc 5) (Enc 2) 1000]) 9)
   \<and> getDecryptedSupplyData (run demoEnv initial [CallSubmit (Enc 1) (Enc 5) (Enc 2) 1000]) 9
       = ([], 0, [], False)"
proof -
  have unres: "\<not> isAnalyzed (decryptedSupplyData
        (run demoEnv initial [CallSubmit (Enc 1) (Enc 5) (Enc 2) 1000]) 9)"
    by (simp add: demo_defs)
  show ?thesis
    using get_revealed_placeholder [OF unres] unres by simp
qed

subsection \<open>Looking a category up by its fingerprint\<close>

lemma findMineralType_found:
  "c \<in> set ms \<Longrightarrow> \<forall>c' \<in> set ms. keccak256 E c' = keccak256 E c \<longrightarrow> c' = c \<Longrightarrow>
     findMineralType E ms (keccak256 E c) = Inr c"
  by (induction ms) auto

lemma findMineralType_missing:
  "h \<notin> keccak256 E ` set ms \<Longrightarrow> findMineralType E ms h = Inl MineralTypeNotFound"
  by (induction ms) auto

lemma findMineralType_present:
  "h \<in> keccak256 E ` set ms \<Longrightarrow> \<exists>c. findMineralType E ms h = Inr c"
  by (induction ms) auto

lemma findMineralType_hash:
  "findMineralType E ms h = Inr c \<Longrightarrow> c \<in> set ms \<and> keccak256 E c = h"
  by (induction ms) (auto split: if_splits)

text \<open>
  C7. For every category in the catalog, looking up its fingerprint returns that category,
  and a fingerprint that no cataloged category has is answered with "Mineral type not
  found". The scan returns the first entry with the given hash, so the round trip is
  stated for a category whose hash no other catalog entry shares, which is what a
  fingerprint is taken to be.
\<close>

theorem fingerprint_lookup_roundtrip:
  "(c \<in> set (mineralTypeList s)
      \<and> (\<forall>c' \<in> set (mineralTypeList s). keccak256 E c' = keccak256 E c \<longrightarrow> c' = c)
      \<longrightarrow> getMineralTypeFromHash E s (keccak256 E c) = Inr c)
   \<and> (h \<notin> keccak256 E ` set (mineralTypeList s)
      \<longrightarrow> getMineralTypeFromHash E s h = Inl MineralTypeNotFound)"
  by (simp add: getMineralTypeFromHash_def findMineralType_found findMineralType_missing)

theorem fingerprint_lookup_roundtrip_witness:
  "''Cobalt'' \<in> set (mineralTypeList demoResolved)
   \<and> getMineralTypeFromHash demoEnv demoResolved (keccak256 demoEnv ''Cobalt'') = Inr ''Cobalt''
   \<and> 5 \<notin> keccak256 demoEnv ` set (mineralTypeList demoResolved)
   \<and> getMineralTypeFromHash demoEnv demoResolved 5 = Inl MineralTypeNotFound"
proof -
  have cat: "mineralTypeList demoResolved = [''Cobalt'']"
    by (simp add: demoResolved_catalog)
  have mem: "''Cobalt'' \<in> set (mineralTypeList demoResolved)"
    by (simp add: cat)
  have uniq: "\<forall>c' \<in> set (mineralTypeList demoResolved).
      keccak256 demoEnv c' = keccak256 demoEnv ''Cobalt'' \<longrightarrow> c' = ''Cobalt''"
    by (simp add: cat)
  have miss: "5 \<notin> keccak256 demoEnv ` set (mineralTypeList demoResolved)"
    by (simp add: cat demoEnv_def demoKeccak_def)
  show ?thesis
    using fingerprint_lookup_roundtrip [of "''Cobalt''" demoResolved demoEnv 5] mem uniq miss
    by blast
qed

subsection \<open>The catalog and the counters\<close>

lemma firstOccurrences_snoc:
  "firstOccurrences (xs @ [m]) =
     (if m \<in> set xs then firstOccurrences xs else firstOccurrences xs @ [m])"
  by (simp add: firstOccurrences_def)


lemma firstOccurrences_set: "set (firstOccurrences xs) = set xs"
  by (simp add: firstOccurrences_def)

lemma not_initialized_plain: "\<not> isInitialized x \<Longrightarrow> plain x = 0"
  by (cases x) simp_all

lemma counters_inv_initial: "counters_inv initial []"
  by (simp add: counters_inv_def initial_def firstOccurrences_def)

lemma counters_inv_analyze:
  assumes inv: "counters_inv s rs"
    and ok: "analyzeSupplyChain E s r ct pf = Inr s'"
    and dec: "decodeSupply E ct = Some (mt, q, orig)"
  shows "counters_inv s' (rs @ [mt])"
proof -
  let ?fresh = "\<not> isInitialized (encryptedMineralStats s mt)"
  have stats: "encryptedMineralStats s mt =
      (if count_list rs mt = 0 then Uninit else Enc (of_nat (count_list rs mt)))"
    using inv by (simp add: counters_inv_def)
  have fresh: "?fresh \<longleftrightarrow> mt \<notin> set rs"
    using stats by (simp add: count_list_0_iff)
  have list': "mineralTypeList s' =
      (if ?fresh then mineralTypeList s @ [mt] else mineralTypeList s)"
    using ok dec by (auto simp: analyzeSupplyChain_def Let_def split: if_splits)
  have stats': "encryptedMineralStats s' =
      (encryptedMineralStats s)(mt := Enc (plain (encryptedMineralStats s mt) + 1))"
    using ok dec
    by (auto simp: analyzeSupplyChain_def Let_def FHE_add_def asEuint32_def fun_eq_iff
        not_initialized_plain split: if_splits)
  have "mineralTypeList s' = firstOccurrences (rs @ [mt])"
    using list' fresh inv by (simp add: counters_inv_def firstOccurrences_snoc)
  moreover have "encryptedMineralStats s' c =
      (if count_list (rs @ [mt]) c = 0 then Uninit else Enc (of_nat (count_list (rs @ [mt]) c)))"
    for c
  proof (cases "c = mt")
    case True
    then show ?thesis using stats stats' by simp
  next
    case False
    then show ?thesis using inv stats' by (simp add: counters_inv_def)
  qed
  ultimately show ?thesis
    by (simp add: counters_inv_def)
qed

lemma exec_catalog_unchanged:
  assumes "exec E s c = Inr s'" and "resolvedCategory E s c = []"
  shows "mineralTypeList s' = mineralTypeList s \<and> encryptedMineralStats s' = encryptedMineralStats s"
proof (cases c)
  case (CallAnalyze r ct pf)
  then show ?thesis
    using assms by (auto simp: analyzeSupplyChain_def Let_def split: if_splits option.splits)
qed (use assms in \<open>auto simp: submitEncryptedSupplyData_def requestSupplyAnalysis_def
      requestMineralStatsDecryption_def decryptMineralStats_def FHE_requestDecryption_def Let_def
      split: sum.splits if_splits option.splits\<close>)

lemma counters_inv_apply_call:
  assumes "counters_inv s rs"
  shows "counters_inv (apply_call E s c) (rs @ resolvedCategory E s c)"
proof (cases "exec E s c")
  case (Inl e)
  then have "resolvedCategory E s c = []"
    by (cases c) simp_all
  then show ?thesis
    using assms Inl by (simp add: apply_call_def)
next
  case (Inr s')
  show ?thesis
  proof (cases "resolvedCategory E s c")
    case Nil
    then show ?thesis
      using exec_catalog_unchanged [OF Inr Nil] assms Inr
      by (simp add: apply_call_def counters_inv_def)
  next
    case (Cons mt rest)
    then obtain r ct pf where c: "c = CallAnalyze r ct pf"
      by (cases c) simp_all
    then obtain q orig where dec: "decodeSupply E ct = Some (mt, q, orig)" and rest: "rest = []"
      using Cons Inr by (auto split: option.splits)
    then show ?thesis
      using counters_inv_analyze [OF assms _ dec, of r pf s'] Inr c Cons
      by (simp add: apply_call_def)
  qed
qed

lemma counters_inv_run:
  "counters_inv s rs \<Longrightarrow> counters_inv (run E s cs) (rs @ resolvedCategories E s cs)"
proof (induction cs arbitrary: s rs)
  case Nil
  then show ?case by (simp add: run_def)
next
  case (Cons c cs)
  have "counters_inv (run E (apply_call E s c) cs)
      ((rs @ resolvedCategory E s c) @ resolvedCategories E (apply_call E s c) cs)"
    by (rule Cons.IH [OF counters_inv_apply_call [OF Cons.prems]])
  then show ?case by (simp add: run_def)
qed

lemma reachable_counters:
  "counters_inv (run E initial cs) (resolvedCategories E initial cs)"
  using counters_inv_run [OF counters_inv_initial, of E cs] by simp

lemma reachable_initialized_iff_cataloged:
  "isInitialized (encryptedMineralStats (run E initial cs) c)
     \<longleftrightarrow> c \<in> set (mineralTypeList (run E initial cs))"
  using reachable_counters [of E cs]
  by (simp add: counters_inv_def firstOccurrences_set count_list_0_iff)

subsection \<open>The callback of an aggregate decryption\<close>

lemma decryptMineralStats_same:
  "decryptMineralStats E s r ct pf = Inr s' \<Longrightarrow> s' = s"
  by (auto simp: decryptMineralStats_def Let_def split: sum.splits if_splits option.splits)

text \<open>
  C10. \<open>decryptMineralStats\<close> writes nothing: it either reverts or returns the storage it
  was given, with the token still in the request table and the decoded count dropped, so
  a second call with the same arguments behaves as the first. For a token that
  \<open>requestMineralStatsDecryption\<close> has registered (it holds the hash of a category with a
  counter) in a reachable storage, a payload that verifies and decodes is accepted.
\<close>

theorem decryptMineralStats_is_noop:
  "apply_call E s (CallDecryptStats r ct pf) = s
   \<and> (\<forall>s'. decryptMineralStats E s r ct pf = Inr s' \<longrightarrow> s' = s)
   \<and> decryptMineralStats E (apply_call E s (CallDecryptStats r ct pf)) r ct pf
       = decryptMineralStats E s r ct pf
   \<and> (s = run E initial cs \<and> requestToDataId s r = keccak256 E c
        \<and> isInitialized (encryptedMineralStats s c)
        \<and> checkSignatures E r ct pf \<and> decodeStats E ct = Some v
      \<longrightarrow> decryptMineralStats E s r ct pf = Inr s
          \<and> requestToDataId (apply_call E s (CallDecryptStats r ct pf)) r = keccak256 E c)"
proof -
  have same: "apply_call E s (CallDecryptStats r ct pf) = s"
    using decryptMineralStats_same [of E s r ct pf]
    by (auto simp: apply_call_def split: sum.splits)
  have accept: "decryptMineralStats E s r ct pf = Inr s"
    if "s = run E initial cs" and "requestToDataId s r = keccak256 E c"
      and "isInitialized (encryptedMineralStats s c)"
      and "checkSignatures E r ct pf" and "decodeStats E ct = Some v"
  proof -
    have "c \<in> set (mineralTypeList s)"
      using that(1,3) reachable_initialized_iff_cataloged [of E cs c] by simp
    then obtain c' where "getMineralTypeFromHash E s (keccak256 E c) = Inr c'"
      using findMineralType_present [of "keccak256 E c" E "mineralTypeList s"]
      by (auto simp: getMineralTypeFromHash_def)
    then show ?thesis
      using that(2,4,5) by (simp add: decryptMineralStats_def)
  qed
  show ?thesis
    using same accept decryptMineralStats_same [of E s r ct pf] by auto
qed

theorem decryptMineralStats_is_noop_witness:
  "requestToDataId (run demoEnv initial (cobaltTwice @ [CallRequestStats ''Cobalt'' (Some 11)])) 11
     = keccak256 demoEnv ''Cobalt''
   \<and> decryptMineralStats demoEnv
        (run demoEnv initial (cobaltTwice @ [CallRequestStats ''Cobalt'' (Some 11)])) 11
        (StatsPayload 2) True
     = Inr (run demoEnv initial (cobaltTwice @ [CallRequestStats ''Cobalt'' (Some 11)]))"
proof -
  let ?s = "run demoEnv initial (cobaltTwice @ [CallRequestStats ''Cobalt'' (Some 11)])"
  have tok: "requestToDataId ?s 11 = keccak256 demoEnv ''Cobalt''"
    by (simp add: cobaltTwice_def demo_defs)
  have ini: "isInitialized (encryptedMineralStats ?s ''Cobalt'')"
    by (simp add: cobaltTwice_def demo_defs)
  have chk: "checkSignatures demoEnv 11 (StatsPayload 2) True"
    by (simp add: demoEnv_def)
  have dec: "decodeStats demoEnv (StatsPayload 2) = Some 2"
    by (simp add: demoEnv_def)
  show ?thesis
    using decryptMineralStats_is_noop [of demoEnv ?s 11 "StatsPayload 2" True
        "cobaltTwice @ [CallRequestStats ''Cobalt'' (Some 11)]" "''Cobalt''" 2] tok ini chk dec
    by blast
qed

subsection \<open>Submitting\<close>

lemma submitAll_append:
  "submitAll s (xs @ ys) =
     (case submitAll s xs of Inl e \<Rightarrow> Inl e | Inr s' \<Rightarrow> submitAll s' ys)"
  by (induction xs arbitrary: s) (auto split: sum.splits)

lemma unat_of_nat_uint256: "k < 2 ^ 256 \<Longrightarrow> unat (of_nat k :: uint256) = k"
  by (simp add: unat_of_nat)

lemma of_nat_uint256_neq:
  "j < k \<Longrightarrow> k < 2 ^ 256 \<Longrightarrow> (of_nat j :: uint256) \<noteq> of_nat k"
proof
  assume lt: "j < k" and k: "k < 2 ^ 256" and eq: "(of_nat j :: uint256) = of_nat k"
  have j: "j < 2 ^ 256"
    using lt k by (rule less_trans)
  have "unat (of_nat j :: uint256) = j" and "unat (of_nat k :: uint256) = k"
    by (rule unat_of_nat_uint256 [OF j], rule unat_of_nat_uint256 [OF k])
  then show False
    using eq lt by simp
qed

lemma submit_step:
  assumes sub: "submitted s xs" and len: "Suc (length xs) < 2 ^ 256"
  shows "\<exists>s'. submitEncryptedSupplyData s emt eq eo now = Inr s' \<and>
     submitted s' (xs @ [(emt, eq, eo, now)])"
proof -
  let ?n = "length xs"
  let ?new = "of_nat (Suc ?n) :: uint256"
  have cnt: "dataCount s = of_nat ?n"
    using sub by (simp add: submitted_def)
  have "unat (dataCount s) = ?n"
    using cnt len by (simp add: unat_of_nat_uint256)
  then have add: "checked_add (dataCount s) 1 = Inr ?new"
    using len cnt by (simp add: checked_add_def)
  define s' where "s' = s\<lparr>dataCount := ?new,
      encryptedSupplyData := (encryptedSupplyData s)(?new :=
        \<lparr>data_id = ?new, encryptedMineralType = emt, encryptedQuantity = eq,
         encryptedOrigin = eo, timestamp = now\<rparr>),
      decryptedSupplyData := (decryptedSupplyData s)(?new :=
        \<lparr>mineralType = [], quantity = 0, origin = [], isAnalyzed = False\<rparr>),
      events := events s @ [DataSubmitted ?new now]\<rparr>"
  have res: "submitEncryptedSupplyData s emt eq eo now = Inr s'"
    unfolding submitEncryptedSupplyData_def add s'_def by simp
  have old: "(of_nat (Suc k) :: uint256) \<noteq> ?new" if "k < ?n" for k
    using of_nat_uint256_neq [of "Suc k" "Suc ?n"] that len by simp
  have ev: "events s' = map (\<lambda>k. DataSubmitted (of_nat (Suc k))
        (snd (snd (snd ((xs @ [(emt, eq, eo, now)]) ! k))))) [0..<Suc ?n]"
    using sub by (simp add: submitted_def s'_def nth_append)
  have ent: "encryptedSupplyData s' (of_nat (Suc k)) =
        \<lparr>data_id = of_nat (Suc k),
         encryptedMineralType = fst ((xs @ [(emt, eq, eo, now)]) ! k),
         encryptedQuantity = fst (snd ((xs @ [(emt, eq, eo, now)]) ! k)),
         encryptedOrigin = fst (snd (snd ((xs @ [(emt, eq, eo, now)]) ! k))),
         timestamp = snd (snd (snd ((xs @ [(emt, eq, eo, now)]) ! k)))\<rparr>
      \<and> decryptedSupplyData s' (of_nat (Suc k)) =
        \<lparr>mineralType = [], quantity = 0, origin = [], isAnalyzed = False\<rparr>"
    if "k < Suc ?n" for k
  proof (cases "k = ?n")
    case True
    then show ?thesis by (simp add: s'_def)
  next
    case False
    then have "k < ?n" using that by simp
    then show ?thesis
      using sub old [of k] by (simp add: submitted_def s'_def nth_append)
  qed
  have "submitted s' (xs @ [(emt, eq, eo, now)])"
    unfolding submitted_def using ev ent by (simp add: s'_def)
  then show ?thesis
    using res by blast
qed

lemma submitAll_submitted:
  "length args < 2 ^ 256 \<Longrightarrow> \<exists>s. submitAll initial args = Inr s \<and> submitted s args"
proof (induction args rule: rev_induct)
  case Nil
  then show ?case by (simp add: submitted_def initial_def)
next
  case (snoc x xs)
  then obtain s where s: "submitAll initial xs = Inr s" "submitted s xs"
    by auto
  obtain emt eq eo now where x: "x = (emt, eq, eo, now)"
    by (cases x) auto
  obtain s' where "submitEncryptedSupplyData s emt eq eo now = Inr s'"
      "submitted s' (xs @ [(emt, eq, eo, now)])"
    using submit_step [OF s(2), of emt eq eo now] snoc.prems by auto
  then show ?case
    using s(1) x by (simp add: submitAll_append)
qed

lemma ids_distinct:
  "n < 2 ^ 256 \<Longrightarrow> distinct (map (\<lambda>k. of_nat (Suc k) :: uint256) [0..<n])"
  by (auto simp: distinct_map inj_on_def dest: arg_cong [where f = unat]
      simp: unat_of_nat_uint256)

text \<open>
  C5. For every number \<open>n\<close> of the id type and every sequence of \<open>n\<close> submissions from
  the initial storage, no call reverts, the counter ends at \<open>n\<close>, the ids given out are
  1, 2, ..., \<open>n\<close> in call order, all different, and under the id of each call are its
  disclosure and an empty unresolved revealed entry.
\<close>

theorem submit_ids_sequential:
  fixes n :: uint256
  assumes "length args = unat n"
  shows "\<exists>s. submitAll initial args = Inr s \<and> submitted s args \<and> dataCount s = n
     \<and> distinct (map (\<lambda>k. of_nat (Suc k) :: uint256) [0..<length args])"
proof -
  have len: "length args < 2 ^ 256"
    using assms unsigned_less [of n, where 'a = nat] by simp
  then obtain s where s: "submitAll initial args = Inr s" "submitted s args"
    using submitAll_submitted by blast
  have "dataCount s = n"
    using s(2) assms by (simp add: submitted_def)
  then show ?thesis
    using s ids_distinct [OF len] by blast
qed

theorem submit_ids_sequential_witness:
  "length threeSubmissions = unat (3 :: uint256)
   \<and> (\<exists>s. submitAll initial threeSubmissions = Inr s \<and> dataCount s = 3
        \<and> events s = [DataSubmitted 1 1000, DataSubmitted 2 1001, DataSubmitted 3 1002]
        \<and> encryptedSupplyData s 2 = \<lparr>data_id = 2, encryptedMineralType = Enc 2,
             encryptedQuantity = Enc 20, encryptedOrigin = Enc 8, timestamp = 1001\<rparr>
        \<and> decryptedSupplyData s 3 =
             \<lparr>mineralType = [], quantity = 0, origin = [], isAnalyzed = False\<rparr>)"
proof -
  have len: "length threeSubmissions = unat (3 :: uint256)"
    by (simp add: threeSubmissions_def)
  obtain s where s: "submitAll initial threeSubmissions = Inr s"
      "submitted s threeSubmissions" "dataCount s = 3"
    using submit_ids_sequential [OF len] by blast
  have upt3: "[0..<3] = [0, Suc 0, Suc (Suc 0)]"
    by (simp add: upt_rec numeral_3_eq_3)
  have ev: "events s = [DataSubmitted 1 1000, DataSubmitted 2 1001, DataSubmitted 3 1002]"
    using s(2) by (simp add: submitted_def threeSubmissions_def upt3)
  have all: "\<forall>k < 3. encryptedSupplyData s (of_nat (Suc k)) =
        \<lparr>data_id = of_nat (Suc k), encryptedMineralType = fst (threeSubmissions ! k),
         encryptedQuantity = fst (snd (threeSubmissions ! k)),
         encryptedOrigin = fst (snd (snd (threeSubmissions ! k))),
         timestamp = snd (snd (snd (threeSubmissions ! k)))\<rparr>
      \<and> decryptedSupplyData s (of_nat (Suc k)) =
        \<lparr>mineralType = [], quantity = 0, origin = [], isAnalyzed = False\<rparr>"
    using s(2) by (simp add: submitted_def threeSubmissions_def)
  have e2: "encryptedSupplyData s 2 = \<lparr>data_id = 2, encryptedMineralType = Enc 2,
             encryptedQuantity = Enc 20, encryptedOrigin = Enc 8, timestamp = 1001\<rparr>"
    using all [rule_format, of 1] by (simp add: threeSubmissions_def)
  have d3: "decryptedSupplyData s 3 =
      \<lparr>mineralType = [], quantity = 0, origin = [], isAnalyzed = False\<rparr>"
    using all [rule_format, of 2] by simp
  show ?thesis
    using len s(1,3) ev e2 d3 by blast
qed

subsection \<open>The risk query\<close>


lemma quantitySum_empty: "b \<le> a \<Longrightarrow> quantitySum s P a b = 0"
  by (simp add: quantitySum_def)

lemma quantitySum_step:
  "a < b \<Longrightarrow> quantitySum s P a b =
     (if P a then unat (quantity (decryptedSupplyData s (of_nat a))) else 0)
       + quantitySum s P (Suc a) b"
  by (simp add: quantitySum_def upt_conv_Cons)

lemma quantitySum_mono:
  "(\<And>k. P k \<Longrightarrow> Q k) \<Longrightarrow> quantitySum s P a b \<le> quantitySum s Q a b"
proof (induction "b - a" arbitrary: a)
  case 0
  then show ?case by (simp add: quantitySum_empty)
next
  case (Suc n)
  then have "a < b" and "n = b - Suc a" by simp_all
  then show ?case
    using Suc.hyps(1) [of "Suc a"] Suc.prems by (auto simp: quantitySum_step)
qed














subsection \<open>The targets in the request table\<close>









subsection \<open>Requesting an analysis\<close>


lemma initial_unassigned_inv: "unassigned_inv initial"
  by (simp add: unassigned_inv_def initial_def)

lemma unassigned_invD:
  "unassigned_inv s \<Longrightarrow> i = 0 \<or> dataCount s < i \<Longrightarrow> encryptedSupplyData s i = zeroEncrypted"
  unfolding unassigned_inv_def by blast

lemma exec_unassigned_inv:
  assumes inv: "unassigned_inv s" and ex: "exec E s c = Inr s'"
  shows "unassigned_inv s'"
proof (cases c)
  case (CallSubmit emt eq eo now)
  then have sub: "submitEncryptedSupplyData s emt eq eo now = Inr s'"
    using ex by simp
  then have lt: "dataCount s < dataCount s'"
    by (rule submit_dataCount [THEN conjunct1])
  have new: "dataCount s' = dataCount s + 1"
    using sub by (rule submit_dataCount [THEN conjunct2])
  have enc: "encryptedSupplyData s' i = encryptedSupplyData s i" if "i \<noteq> dataCount s'" for i
    using sub that
    by (auto simp: submitEncryptedSupplyData_def checked_add_def split: if_splits)
  have "encryptedSupplyData s' i = zeroEncrypted" if i: "i = 0 \<or> dataCount s' < i" for i
  proof -
    have ne: "i \<noteq> dataCount s'"
      using i lt by auto
    have "i = 0 \<or> dataCount s < i"
      using i lt by auto
    then have "encryptedSupplyData s i = zeroEncrypted"
      by (rule unassigned_invD [OF inv])
    then show ?thesis
      using enc [OF ne] by simp
  qed
  then show ?thesis
    unfolding unassigned_inv_def by blast
qed (use inv ex in \<open>auto simp: unassigned_inv_def requestSupplyAnalysis_def
      analyzeSupplyChain_def requestMineralStatsDecryption_def decryptMineralStats_def
      FHE_requestDecryption_def Let_def split: sum.splits if_splits option.splits\<close>)

lemma apply_call_unassigned_inv: "unassigned_inv s \<Longrightarrow> unassigned_inv (apply_call E s c)"
  by (auto simp: apply_call_def split: sum.splits dest: exec_unassigned_inv)

lemma run_unassigned_inv: "unassigned_inv s \<Longrightarrow> unassigned_inv (run E s cs)"
  unfolding run_def by (induction cs arbitrary: s) (auto simp: apply_call_unassigned_inv)

lemma request_unassigned_refused:
  assumes "unassigned_inv s" and "dataId = 0 \<or> dataCount s < dataId"
    and "\<not> isAnalyzed (decryptedSupplyData s dataId)"
  shows "requestSupplyAnalysis s dataId granted = Inl SenderNotAllowed"
proof -
  have "encryptedSupplyData s dataId = zeroEncrypted"
    by (rule unassigned_invD [OF assms(1,2)])
  then show ?thesis
    using assms(3)
    by (simp add: requestSupplyAnalysis_def FHE_requestDecryption_def zeroEncrypted_def Let_def)
qed

lemma request_success_facts:
  assumes "requestSupplyAnalysis s dataId granted = Inr s'"
  shows "\<not> isAnalyzed (decryptedSupplyData s dataId)"
    and "isInitialized (encryptedMineralType (encryptedSupplyData s dataId))"
    and "\<exists>reqId. granted = Some reqId
        \<and> requestToDataId s' = (requestToDataId s)(reqId := dataId)"
    and "dataCount s' = dataCount s" and "decryptedSupplyData s' = decryptedSupplyData s"
    and "encryptedSupplyData s' = encryptedSupplyData s"
    and "encryptedMineralStats s' = encryptedMineralStats s"
    and "mineralTypeList s' = mineralTypeList s"
  using assms
  by (auto simp: requestSupplyAnalysis_def FHE_requestDecryption_def Let_def
      split: if_splits option.splits)

text \<open>
  C3. The claim: \<open>requestSupplyAnalysis\<close> succeeds only for the id of a submitted
  disclosure that is not yet resolved, and for any other id, also one that was never
  assigned, it fails with \<open>AlreadyAnalyzed\<close> and registers no token.

  The only \<open>require\<close> of the function tests the resolved flag. For an id that was never
  assigned the flag is unset, so the \<open>require\<close> passes; the call then fails in
  \<open>FHE.requestDecryption\<close>, on the zero handles of the unset entry. In the initial storage
  the request for id 7 reverts and registers nothing, but the error is not
  \<open>AlreadyAnalyzed\<close>.
\<close>

theorem request_unassigned_counterexample:
  "dataCount initial = 0
   \<and> requestSupplyAnalysis initial 7 (Some 1) = Inl SenderNotAllowed
   \<and> requestSupplyAnalysis initial 7 (Some 1) \<noteq> Inl AlreadyAnalyzed
   \<and> apply_call demoEnv initial (CallRequestAnalysis 7 (Some 1)) = initial"
  by (simp add: requestSupplyAnalysis_def FHE_requestDecryption_def apply_call_def
      initial_def zeroDecrypted_def zeroEncrypted_def)

text \<open>
  C3, as the code has it, in every storage reached from the initial one. A request that
  succeeds is for an assigned id (between 1 and \<open>dataCount\<close>) whose revealed entry is not
  resolved, and it registers the token for that id. A request for a resolved entry fails
  with \<open>AlreadyAnalyzed\<close>. A request for a never-assigned id whose entry is not resolved
  fails as well, with the library's \<open>SenderNotAllowed\<close>. No failing request changes the
  storage. A request for an unresolved entry whose three handles are initialised succeeds
  when the library grants it.
\<close>

theorem request_analysis_outcomes:
  assumes s: "s = run E initial cs"
  shows "(isAnalyzed (decryptedSupplyData s dataId) \<longrightarrow>
        requestSupplyAnalysis s dataId granted = Inl AlreadyAnalyzed)
   \<and> ((dataId = 0 \<or> dataCount s < dataId) \<and> \<not> isAnalyzed (decryptedSupplyData s dataId) \<longrightarrow>
        requestSupplyAnalysis s dataId granted = Inl SenderNotAllowed)
   \<and> (\<forall>s'. requestSupplyAnalysis s dataId granted = Inr s' \<longrightarrow>
        dataId \<noteq> 0 \<and> dataId \<le> dataCount s \<and> \<not> isAnalyzed (decryptedSupplyData s dataId)
        \<and> (\<exists>reqId. granted = Some reqId
              \<and> requestToDataId s' = (requestToDataId s)(reqId := dataId)))
   \<and> (\<forall>e. requestSupplyAnalysis s dataId granted = Inl e \<longrightarrow>
        apply_call E s (CallRequestAnalysis dataId granted) = s)
   \<and> (\<not> isAnalyzed (decryptedSupplyData s dataId)
        \<and> isInitialized (encryptedMineralType (encryptedSupplyData s dataId))
        \<and> isInitialized (encryptedQuantity (encryptedSupplyData s dataId))
        \<and> isInitialized (encryptedOrigin (encryptedSupplyData s dataId))
        \<and> granted = Some reqId \<longrightarrow>
        (\<exists>s'. requestSupplyAnalysis s dataId granted = Inr s'))"
proof -
  have inv: "unassigned_inv s"
    unfolding s by (rule run_unassigned_inv [OF initial_unassigned_inv])
  have resolved: "requestSupplyAnalysis s dataId granted = Inl AlreadyAnalyzed"
    if "isAnalyzed (decryptedSupplyData s dataId)"
    using that by (simp add: requestSupplyAnalysis_def)
  have unassigned: "requestSupplyAnalysis s dataId granted = Inl SenderNotAllowed"
    if "dataId = 0 \<or> dataCount s < dataId" and "\<not> isAnalyzed (decryptedSupplyData s dataId)"
    using request_unassigned_refused [OF inv that] .
  have success: "dataId \<noteq> 0 \<and> dataId \<le> dataCount s
      \<and> \<not> isAnalyzed (decryptedSupplyData s dataId)
      \<and> (\<exists>reqId. granted = Some reqId
            \<and> requestToDataId s' = (requestToDataId s)(reqId := dataId))"
    if ok: "requestSupplyAnalysis s dataId granted = Inr s'" for s'
  proof -
    note facts = request_success_facts [OF ok]
    have "\<not> (dataId = 0 \<or> dataCount s < dataId)"
    proof
      assume "dataId = 0 \<or> dataCount s < dataId"
      then have "requestSupplyAnalysis s dataId granted = Inl SenderNotAllowed"
        using unassigned facts(1) by simp
      then show False using ok by simp
    qed
    then have "dataId \<noteq> 0 \<and> dataId \<le> dataCount s"
      by (simp add: not_less)
    then show ?thesis
      using facts(1,3) by simp
  qed
  have failure: "apply_call E s (CallRequestAnalysis dataId granted) = s"
    if "requestSupplyAnalysis s dataId granted = Inl e" for e
    using that by (simp add: apply_call_def)
  have granted: "\<exists>s'. requestSupplyAnalysis s dataId granted = Inr s'"
    if "\<not> isAnalyzed (decryptedSupplyData s dataId)"
      and "isInitialized (encryptedMineralType (encryptedSupplyData s dataId))"
      and "isInitialized (encryptedQuantity (encryptedSupplyData s dataId))"
      and "isInitialized (encryptedOrigin (encryptedSupplyData s dataId))"
      and "granted = Some reqId"
    using that by (simp add: requestSupplyAnalysis_def FHE_requestDecryption_def Let_def)
  show ?thesis
    using resolved unassigned success failure granted by blast
qed

theorem request_analysis_outcomes_witness:
  "requestSupplyAnalysis (run demoEnv initial cobaltOnce) 1 (Some 8) = Inl AlreadyAnalyzed
   \<and> requestSupplyAnalysis (run demoEnv initial cobaltOnce) 9 (Some 8) = Inl SenderNotAllowed
   \<and> apply_call demoEnv (run demoEnv initial cobaltOnce) (CallRequestAnalysis 9 (Some 8))
       = run demoEnv initial cobaltOnce
   \<and> (\<exists>s'. requestSupplyAnalysis
          (run demoEnv initial [CallSubmit (Enc 1) (Enc 5) (Enc 2) 1000]) 1 (Some 8) = Inr s')"
proof -
  let ?s = "run demoEnv initial cobaltOnce"
  let ?s1 = "run demoEnv initial [CallSubmit (Enc 1) (Enc 5) (Enc 2) 1000]"
  have yes: "isAnalyzed (decryptedSupplyData ?s 1)"
    by (simp add: cobaltOnce_def demo_defs)
  have cnt: "dataCount ?s = 1"
    by (simp add: cobaltOnce_def demo_defs)
  have out: "(9 :: uint256) = 0 \<or> dataCount ?s < 9"
    by (simp add: cnt word_less_nat_alt)
  have no: "\<not> isAnalyzed (decryptedSupplyData ?s 9)"
    by (simp add: cobaltOnce_def demo_defs)
  have fresh: "\<not> isAnalyzed (decryptedSupplyData ?s1 1)"
      "isInitialized (encryptedMineralType (encryptedSupplyData ?s1 1))"
      "isInitialized (encryptedQuantity (encryptedSupplyData ?s1 1))"
      "isInitialized (encryptedOrigin (encryptedSupplyData ?s1 1))"
    by (simp_all add: demo_defs)
  have a: "requestSupplyAnalysis ?s 1 (Some 8) = Inl AlreadyAnalyzed"
    using request_analysis_outcomes [OF refl, of demoEnv cobaltOnce 1 "Some 8"] yes by blast
  have b: "requestSupplyAnalysis ?s 9 (Some 8) = Inl SenderNotAllowed"
    using request_analysis_outcomes [OF refl, of demoEnv cobaltOnce 9 "Some 8"] out no by blast
  have c: "apply_call demoEnv ?s (CallRequestAnalysis 9 (Some 8)) = ?s"
    using request_analysis_outcomes [OF refl, of demoEnv cobaltOnce 9 "Some 8"] b by blast
  have d: "\<exists>s'. requestSupplyAnalysis ?s1 1 (Some 8) = Inr s'"
    using request_analysis_outcomes [OF refl, of demoEnv
        "[CallSubmit (Enc 1) (Enc 5) (Enc 2) 1000]" 1 "Some 8" 8] fresh
    by blast
  show ?thesis
    using a b c d by simp
qed

subsection \<open>Which request stored a target\<close>








subsection \<open>Counters and resolved disclosures\<close>















end
